theory Spec2Isabelle
  imports Complex_Main "HOL-Library.AList" "HOL-Library.Char_ord" "HOL-Library.List_Lexorder"
begin

section \<open>Rate-limit monitor: \<^verbatim>\<open>AsyncRateLimitMonitor\<close> of \<^verbatim>\<open>meta_client.py\<close>\<close>

text \<open>
  The snapshot dictionary that \<^verbatim>\<open>parse_headers\<close> builds. Numbers of the JSON payloads are
  rationals: the code only compares them and takes maxima, which Python does exactly on
  ints and floats alike. \<^verbatim>\<open>details\<close> is a dict keyed by the usage type; it is kept as an
  association list in insertion order.
\<close>

record usage_info =
  usage_percent :: rat
  should_pause :: bool
  pause_seconds :: rat
  details :: "(string \<times> rat \<times> rat \<times> rat) list"

text \<open>
  One element of a usage list of the detailed header. A field is \<open>None\<close> when its key is
  absent, in which case \<^verbatim>\<open>usage.get(key, 0)\<close> yields the default. The estimated time to
  regain access is a whole number of minutes, as the provider reports it: the product
  \<^verbatim>\<open>estimated_time * 60\<close> is then exact. A fractional estimate, whose product Python rounds
  in floating point before truncating it, is outside this type.
\<close>

record buc_usage =
  call_count :: "rat option"
  total_time :: "rat option"
  total_cputime :: "rat option"
  estimated_time_to_regain_access :: "int option"
  usage_type :: "string option"

text \<open>
  \<open>Usage u\<close>: an element on which the loop body runs to its end.
  \<open>BrokenEstimate u\<close>: the three counters are numbers but the estimated time cannot be
  compared with 0, so the body raises after it has updated \<^verbatim>\<open>usage_percent\<close>.
  \<open>Broken\<close>: the body raises before any update (the element is not a dict, or a counter
  is not a number).
\<close>

datatype buc_item = Usage buc_usage | BrokenEstimate buc_usage | Broken

text \<open>
  A header after \<^verbatim>\<open>headers.get(name, '')\<close> and \<^verbatim>\<open>json.loads\<close>: \<open>Absent\<close> is the missing or
  empty header (falsy), \<open>Malformed\<close> a non-empty value on which \<^verbatim>\<open>json.loads\<close> or the first
  access to the decoded value raises, \<open>Parsed\<close> a decoded JSON object.
\<close>

datatype 'a header = Absent | Malformed | Parsed 'a

record acc_usage =
  acc_id_util_pct :: "rat option"
  reset_time_duration :: "rat option"

record throttle_usage =
  app_id_util_pct :: "rat option"
  throttle_acc_id_util_pct :: "rat option"

record headers =
  x_business_use_case_usage :: "(string \<times> buc_item list) list header"
  x_ad_account_usage :: "acc_usage header"
  x_fb_ads_insights_throttle :: "throttle_usage header"

definition get_or :: "'a option \<Rightarrow> 'a \<Rightarrow> 'a" where
  "get_or v d = (case v of None \<Rightarrow> d | Some x \<Rightarrow> x)"

definition max_usage :: "buc_usage \<Rightarrow> rat" where
  "max_usage u =
     max (get_or (call_count u) 0) (max (get_or (total_time u) 0) (get_or (total_cputime u) 0))"

text \<open>The first statement of the inner loop body that writes: the running maximum.\<close>

definition buc_percent :: "usage_info \<Rightarrow> buc_usage \<Rightarrow> usage_info" where
  "buc_percent ui u = ui\<lparr>usage_percent := max (usage_percent ui) (max_usage u)\<rparr>"

text \<open>The whole inner loop body; \<^verbatim>\<open>int(estimated_time * 60)\<close> of a whole number of minutes.\<close>

definition buc_step :: "usage_info \<Rightarrow> buc_usage \<Rightarrow> usage_info" where
  "buc_step ui u =
     (let ui1 = buc_percent ui u;
          et = get_or (estimated_time_to_regain_access u) 0;
          ui2 = (if et > 0
                 then ui1\<lparr>pause_seconds := of_int (et * 60), should_pause := True\<rparr>
                 else ui1)
      in ui2\<lparr>details := AList.update (get_or (usage_type u) ''unknown'')
           (get_or (call_count u) 0, get_or (total_time u) 0, get_or (total_cputime u) 0)
           (details ui2)\<rparr>)"

text \<open>
  The inner loop over one usage list; the flag is \<open>True\<close> when the body raised, which leaves
  the \<^verbatim>\<open>try\<close> block with the updates made so far.
\<close>

fun buc_usages :: "usage_info \<Rightarrow> buc_item list \<Rightarrow> usage_info \<times> bool" where
  "buc_usages ui [] = (ui, False)"
| "buc_usages ui (Usage u # us) = buc_usages (buc_step ui u) us"
| "buc_usages ui (BrokenEstimate u # us) = (buc_percent ui u, True)"
| "buc_usages ui (Broken # us) = (ui, True)"

fun buc_accounts :: "usage_info \<Rightarrow> (string \<times> buc_item list) list \<Rightarrow> usage_info" where
  "buc_accounts ui [] = ui"
| "buc_accounts ui ((acc_key, usages) # rest) =
     (case buc_usages ui usages of
        (ui', True) \<Rightarrow> ui'
      | (ui', False) \<Rightarrow> buc_accounts ui' rest)"

definition parse_buc :: "headers \<Rightarrow> usage_info \<Rightarrow> usage_info" where
  "parse_buc h ui =
     (case x_business_use_case_usage h of
        Parsed buc_data \<Rightarrow> buc_accounts ui buc_data
      | _ \<Rightarrow> ui)"

text \<open>
  The single-account header. The code stores \<^verbatim>\<open>acc_id_util_pct\<close> as it finds it; the
  percentages of this model are numbers. With a percentage that is not a number (JSON null,
  a string) the comparison of the pause decision raises \<^verbatim>\<open>TypeError\<close> out of
  \<^verbatim>\<open>parse_headers\<close> before anything is stored, so such a call leaves the monitor as it was;
  payloads of that kind are not values of \<open>acc_usage\<close>.
\<close>

definition parse_acc :: "headers \<Rightarrow> usage_info \<Rightarrow> usage_info" where
  "parse_acc h ui =
     (if x_ad_account_usage h \<noteq> Absent \<and> x_business_use_case_usage h = Absent
      then (case x_ad_account_usage h of
              Parsed usage_data \<Rightarrow>
                (let ui1 = ui\<lparr>usage_percent := get_or (acc_id_util_pct usage_data) 0\<rparr>
                 in case reset_time_duration usage_data of
                      Some r \<Rightarrow> ui1\<lparr>pause_seconds := r\<rparr>
                    | None \<Rightarrow> ui1)
            | _ \<Rightarrow> ui)
      else ui)"

definition parse_throttle :: "headers \<Rightarrow> usage_info \<Rightarrow> usage_info" where
  "parse_throttle h ui =
     (case x_fb_ads_insights_throttle h of
        Parsed throttle_data \<Rightarrow>
          ui\<lparr>usage_percent :=
               max (usage_percent ui)
                 (max (get_or (app_id_util_pct throttle_data) 0)
                      (get_or (throttle_acc_id_util_pct throttle_data) 0))\<rparr>
      | _ \<Rightarrow> ui)"

definition pause_decision :: "usage_info \<Rightarrow> usage_info" where
  "pause_decision ui =
     (if usage_percent ui \<ge> 80 \<and> \<not> should_pause ui
      then (if usage_percent ui \<ge> 90
            then ui\<lparr>should_pause := True, pause_seconds := 120\<rparr>
            else ui\<lparr>should_pause := True, pause_seconds := 60\<rparr>)
      else ui)"

definition usage_info0 :: usage_info where
  "usage_info0 = \<lparr>usage_percent = 0, should_pause = False, pause_seconds = 0, details = []\<rparr>"

text \<open>The snapshot computed by \<^verbatim>\<open>parse_headers\<close>, before it is stored.\<close>

definition parse_headers_info :: "headers \<Rightarrow> usage_info" where
  "parse_headers_info h = pause_decision (parse_throttle h (parse_acc h (parse_buc h usage_info0)))"

text \<open>
  The monitor's state. \<^verbatim>\<open>usage_by_account\<close> is a Python dict: assignment to a present key
  replaces the value in place, assignment to a new key appends.
\<close>

record monitor =
  usage_by_account :: "(string \<times> usage_info) list"
  global_usage :: rat

definition monitor0 :: monitor where
  "monitor0 = \<lparr>usage_by_account = [], global_usage = 0\<rparr>"

definition parse_headers :: "monitor \<Rightarrow> headers \<Rightarrow> string \<Rightarrow> usage_info \<times> monitor" where
  "parse_headers m h account_id =
     (let ui = parse_headers_info h
      in (ui, m\<lparr>usage_by_account := AList.update account_id ui (usage_by_account m),
                global_usage := max (global_usage m) (usage_percent ui)\<rparr>))"

text \<open>
  \<^verbatim>\<open>check_and_throttle\<close>: the jitter drawn from \<^verbatim>\<open>random.uniform(0.9, 1.1)\<close> is a parameter;
  the result carries the seconds slept, if any. Clearing the flag mutates the stored
  snapshot.
\<close>

definition check_and_throttle :: "monitor \<Rightarrow> rat \<Rightarrow> string \<Rightarrow> (bool \<times> int option) \<times> monitor" where
  "check_and_throttle m jitter account_id =
     (case map_of (usage_by_account m) account_id of
        Some usage \<Rightarrow>
          if should_pause usage
          then ((True, Some \<lfloor>pause_seconds usage * jitter\<rfloor>),
                m\<lparr>usage_by_account :=
                    AList.update account_id (usage\<lparr>should_pause := False\<rparr>) (usage_by_account m)\<rparr>)
          else ((False, None), m)
      | None \<Rightarrow> ((False, None), m))"

definition get_recommended_concurrency :: "monitor \<Rightarrow> nat" where
  "get_recommended_concurrency m =
     (if global_usage m \<ge> 80 then 2
      else if global_usage m \<ge> 60 then 3
      else if global_usage m \<ge> 40 then 5
      else 8)"






section \<open>Retrying client: \<^verbatim>\<open>MetaClient._request_with_retry\<close>\<close>

text \<open>
  What one call of \<^verbatim>\<open>client.get\<close> or \<^verbatim>\<open>client.post\<close> does: it returns a response (status code,
  rate-limit headers, and the decoded JSON body, \<open>None\<close> when \<^verbatim>\<open>response.json()\<close> raises), or it
  raises one of the two transport exceptions the handler names, or another exception.
\<close>

datatype 'j transport_outcome =
    Responds nat headers "'j option"
  | ConnectError
  | ReadTimeout
  | OtherException

datatype http_method = GET | POST | UnsupportedMethod

datatype request_error =
    MetaAPIError_after_attempts nat
  | MetaAPIError_unexpected
  | Uncaught

text \<open>What is observable of a call: proactive pauses, requests sent, backoff sleeps.\<close>

datatype event = Throttle int | Request nat | Backoff rat

datatype 'j attempt_result = Returned 'j | Raised | Retryable

text \<open>\<^verbatim>\<open>response.raise_for_status()\<close> of httpx raises \<^verbatim>\<open>HTTPStatusError\<close> unless the status is 2xx.\<close>

definition raise_for_status :: "nat \<Rightarrow> bool" where
  "raise_for_status status_code = (\<not> (200 \<le> status_code \<and> status_code < 300))"

definition status_then_json :: "nat \<Rightarrow> 'j option \<Rightarrow> 'j attempt_result" where
  "status_then_json status_code body =
     (if raise_for_status status_code then Retryable
      else (case body of Some j \<Rightarrow> Returned j | None \<Rightarrow> Raised))"

text \<open>
  The body of the \<^verbatim>\<open>try\<close> block for one attempt. \<open>Retryable\<close> stands for an exception that the
  \<^verbatim>\<open>except (HTTPStatusError, ConnectError, ReadTimeout)\<close> clause catches, \<open>Raised\<close> for one it
  does not. Both branches of the status test call \<^verbatim>\<open>raise_for_status\<close> inside the \<^verbatim>\<open>try\<close>.
\<close>

definition attempt_once ::
  "http_method \<Rightarrow> (nat \<Rightarrow> 'j transport_outcome) \<Rightarrow> (nat \<Rightarrow> rat) \<Rightarrow> string \<Rightarrow> nat \<Rightarrow> monitor
     \<Rightarrow> event list \<times> 'j attempt_result \<times> monitor" where
  "attempt_once method transport jitter account_id attempt m =
     (case check_and_throttle m (jitter attempt) account_id of
        ((slept, secs), m1) \<Rightarrow>
          (let evs = (case secs of Some s \<Rightarrow> [Throttle s] | None \<Rightarrow> [])
           in if method = UnsupportedMethod then (evs, Raised, m1)
              else (case transport attempt of
                      Responds status_code hs body \<Rightarrow>
                        (let m2 = snd (parse_headers m1 hs account_id)
                         in if 400 \<le> status_code \<and> status_code < 500 \<and> status_code \<noteq> 429
                            then (evs @ [Request attempt], status_then_json status_code body, m2)
                            else (evs @ [Request attempt], status_then_json status_code body, m2))
                    | ConnectError \<Rightarrow> (evs @ [Request attempt], Retryable, m1)
                    | ReadTimeout \<Rightarrow> (evs @ [Request attempt], Retryable, m1)
                    | OtherException \<Rightarrow> (evs @ [Request attempt], Raised, m1))))"

text \<open>
  The \<^verbatim>\<open>for attempt in range(1, attempts + 1)\<close> loop over the remaining attempt numbers.
  \<open>rnd attempt\<close> is the value of \<^verbatim>\<open>random.random()\<close> drawn for the backoff of that attempt.
\<close>

fun retry_loop ::
  "http_method \<Rightarrow> (nat \<Rightarrow> 'j transport_outcome) \<Rightarrow> (nat \<Rightarrow> rat) \<Rightarrow> (nat \<Rightarrow> rat) \<Rightarrow> rat \<Rightarrow> nat
     \<Rightarrow> string \<Rightarrow> nat list \<Rightarrow> monitor \<Rightarrow> (request_error + 'j) \<times> event list \<times> monitor" where
  "retry_loop method transport jitter rnd base_delay attempts account_id [] m =
     (Inl MetaAPIError_unexpected, [], m)"
| "retry_loop method transport jitter rnd base_delay attempts account_id (attempt # rest) m =
     (case attempt_once method transport jitter account_id attempt m of
        (evs, Returned j, m1) \<Rightarrow> (Inr j, evs, m1)
      | (evs, Raised, m1) \<Rightarrow> (Inl Uncaught, evs, m1)
      | (evs, Retryable, m1) \<Rightarrow>
          if attempt = attempts then (Inl (MetaAPIError_after_attempts attempts), evs, m1)
          else (case retry_loop method transport jitter rnd base_delay attempts account_id rest m1 of
                  (res, evs', m2) \<Rightarrow>
                    (res, evs @ Backoff (base_delay * 2 ^ (attempt - 1) + rnd attempt * (1 / 5)) # evs', m2)))"

definition request_with_retry ::
  "http_method \<Rightarrow> (nat \<Rightarrow> 'j transport_outcome) \<Rightarrow> (nat \<Rightarrow> rat) \<Rightarrow> (nat \<Rightarrow> rat) \<Rightarrow> rat \<Rightarrow> nat
     \<Rightarrow> string \<Rightarrow> monitor \<Rightarrow> (request_error + 'j) \<times> event list \<times> monitor" where
  "request_with_retry method transport jitter rnd base_delay attempts account_id m =
     retry_loop method transport jitter rnd base_delay attempts account_id [1..<attempts + 1] m"

definition no_headers :: headers where
  "no_headers = \<lparr>x_business_use_case_usage = Absent, x_ad_account_usage = Absent,
                  x_fb_ads_insights_throttle = Absent\<rparr>"

definition requests_sent :: "event list \<Rightarrow> nat" where
  "requests_sent evs = length (filter (\<lambda>e. case e of Request a \<Rightarrow> True | _ \<Rightarrow> False) evs)"

definition backoff_sleeps :: "event list \<Rightarrow> nat" where
  "backoff_sleeps evs = length (filter (\<lambda>e. case e of Backoff d \<Rightarrow> True | _ \<Rightarrow> False) evs)"









section \<open>Calendar dates: what \<^verbatim>\<open>refresher.py\<close> uses of Python's \<^verbatim>\<open>datetime\<close>\<close>

text \<open>
  A date (and a \<^verbatim>\<open>datetime\<close> at midnight, which is all that \<^verbatim>\<open>strptime\<close> with the format
  \<^verbatim>\<open>%Y-%m-%d\<close> yields) is its proleptic Gregorian ordinal, day 1 being 0001-01-01, so that
  subtracting dates and adding a \<^verbatim>\<open>timedelta\<close> of days are integer arithmetic. The conversions
  between ordinals and year, month, day follow the algorithms of the standard library
  (\<^verbatim>\<open>_ymd2ord\<close> and \<^verbatim>\<open>_ord2ymd\<close>); Python's \<^verbatim>\<open>//\<close> and \<^verbatim>\<open>%\<close> are \<open>div\<close> and \<open>mod\<close> on \<open>int\<close>.
\<close>

definition is_leap :: "int \<Rightarrow> bool" where
  "is_leap year = (year mod 4 = 0 \<and> (year mod 100 \<noteq> 0 \<or> year mod 400 = 0))"

definition DAYS_IN_MONTH :: "int list" where
  "DAYS_IN_MONTH = [-1, 31, 28, 31, 30, 31, 30, 31, 31, 30, 31, 30, 31]"

definition DAYS_BEFORE_MONTH :: "int list" where
  "DAYS_BEFORE_MONTH = [-1, 0, 31, 59, 90, 120, 151, 181, 212, 243, 273, 304, 334]"

definition days_before_year :: "int \<Rightarrow> int" where
  "days_before_year year = (let y = year - 1 in y * 365 + y div 4 - y div 100 + y div 400)"

definition days_in_month :: "int \<Rightarrow> int \<Rightarrow> int" where
  "days_in_month year month =
     (if month = 2 \<and> is_leap year then 29 else DAYS_IN_MONTH ! nat month)"

definition days_before_month :: "int \<Rightarrow> int \<Rightarrow> int" where
  "days_before_month year month =
     DAYS_BEFORE_MONTH ! nat month + (if month > 2 \<and> is_leap year then 1 else 0)"

definition ymd2ord :: "int \<Rightarrow> int \<Rightarrow> int \<Rightarrow> int" where
  "ymd2ord year month day = days_before_year year + days_before_month year month + day"

definition ord2ymd :: "int \<Rightarrow> int \<times> int \<times> int" where
  "ord2ymd ordinal =
     (let n0 = ordinal - 1;
          n400 = n0 div 146097; n1 = n0 mod 146097;
          n100 = n1 div 36524; n2 = n1 mod 36524;
          n4 = n2 div 1461; n3 = n2 mod 1461;
          n1y = n3 div 365; n = n3 mod 365;
          year = n400 * 400 + 1 + n100 * 100 + n4 * 4 + n1y
      in if n1y = 4 \<or> n100 = 4 then (year - 1, 12, 31)
         else (let leapyear = (n1y = 3 \<and> (n4 \<noteq> 24 \<or> n100 = 3));
                   month = (n + 50) div 32;
                   preceding = DAYS_BEFORE_MONTH ! nat month
                                 + (if month > 2 \<and> leapyear then 1 else 0)
               in if preceding > n
                  then (let month' = month - 1;
                            preceding' = preceding - (DAYS_IN_MONTH ! nat month'
                                           + (if month' = 2 \<and> leapyear then 1 else 0))
                        in (year, month', n - preceding' + 1))
                  else (year, month, n - preceding + 1)))"

text \<open>The ordinals of \<^verbatim>\<open>date.min\<close> (0001-01-01) and \<^verbatim>\<open>date.max\<close> (9999-12-31).\<close>

definition MIN_ORDINAL :: int where "MIN_ORDINAL = 1"


subsection \<open>Parsing and printing \<^verbatim>\<open>%Y-%m-%d\<close>\<close>

text \<open>
  Strings are lists of 8-bit characters, so only ASCII digits count as digits.
  \<^verbatim>\<open>strptime\<close> compiles the format to the regular expression
  \<^verbatim>\<open>(\d\d\d\d)-(1[0-2]|0[1-9]|[1-9])-(3[0-1]|[1-2]\d|0[1-9]|[1-9]| [1-9])\<close>, requires the match to
  reach the end of the string, and then builds the date, which checks the year (at least 1)
  and the day against the length of the month. Every failure is a \<^verbatim>\<open>ValueError\<close>, here \<open>None\<close>.
\<close>

definition digit_value :: "char \<Rightarrow> int option" where
  "digit_value c =
     (let n = (of_char c :: nat) in if 48 \<le> n \<and> n \<le> 57 then Some (int n - 48) else None)"

fun parse_year :: "string \<Rightarrow> int option" where
  "parse_year [a, b, c, d] =
     (case (digit_value a, digit_value b, digit_value c, digit_value d) of
        (Some p, Some q, Some r, Some s) \<Rightarrow> Some (p * 1000 + q * 100 + r * 10 + s)
      | _ \<Rightarrow> None)"
| "parse_year _ = None"

fun parse_month :: "string \<Rightarrow> int option" where
  "parse_month [a] =
     (case digit_value a of Some v \<Rightarrow> if 1 \<le> v then Some v else None | None \<Rightarrow> None)"
| "parse_month [a, b] =
     (case (digit_value a, digit_value b) of
        (Some v, Some w) \<Rightarrow>
          if v = 1 \<and> w \<le> 2 then Some (10 + w)
          else if v = 0 \<and> 1 \<le> w then Some w
          else None
      | _ \<Rightarrow> None)"
| "parse_month _ = None"

fun parse_day :: "string \<Rightarrow> int option" where
  "parse_day [a] =
     (case digit_value a of Some v \<Rightarrow> if 1 \<le> v then Some v else None | None \<Rightarrow> None)"
| "parse_day [a, b] =
     (case digit_value b of
        None \<Rightarrow> None
      | Some w \<Rightarrow>
          (case digit_value a of
             Some v \<Rightarrow>
               if v = 3 \<and> w \<le> 1 then Some (30 + w)
               else if v = 1 \<or> v = 2 then Some (v * 10 + w)
               else if v = 0 \<and> 1 \<le> w then Some w
               else None
           | None \<Rightarrow> if a = CHR '' '' \<and> 1 \<le> w then Some w else None))"
| "parse_day _ = None"

text \<open>
  The match of the regular expression: four digits, a hyphen, the month up to the next
  hyphen, and the day as the whole remainder.
\<close>

definition strptime_fields :: "string \<Rightarrow> (int \<times> int \<times> int) option" where
  "strptime_fields s =
     (let ys = take 4 s; t = drop 4 s;
          ms = takeWhile (\<lambda>c. c \<noteq> CHR ''-'') (drop 1 t);
          u = drop (length ms) (drop 1 t)
      in if take 1 t = ''-'' \<and> take 1 u = ''-''
         then (case (parse_year ys, parse_month ms, parse_day (drop 1 u)) of
                 (Some y, Some m, Some d) \<Rightarrow> Some (y, m, d)
               | _ \<Rightarrow> None)
         else None)"

definition strptime :: "string \<Rightarrow> int option" where
  "strptime s =
     (case strptime_fields s of
        None \<Rightarrow> None
      | Some (y, m, d) \<Rightarrow>
          if 1 \<le> y \<and> d \<le> days_in_month y m then Some (ymd2ord y m d) else None)"

definition digit_char :: "int \<Rightarrow> char" where
  "digit_char n = ''0123456789'' ! nat n"

definition pad2 :: "int \<Rightarrow> string" where
  "pad2 n = [digit_char (n div 10), digit_char (n mod 10)]"

definition pad4 :: "int \<Rightarrow> string" where
  "pad4 n = [digit_char (n div 1000), digit_char (n div 100 mod 10),
             digit_char (n div 10 mod 10), digit_char (n mod 10)]"

text \<open>\<^verbatim>\<open>date.isoformat()\<close> prints \<^verbatim>\<open>%04d-%02d-%02d\<close>.\<close>

definition isoformat :: "int \<Rightarrow> string" where
  "isoformat ordinal =
     (case ord2ymd ordinal of (y, m, d) \<Rightarrow> pad4 y @ ''-'' @ pad2 m @ ''-'' @ pad2 d)"

text \<open>
  \<^verbatim>\<open>strftime('%Y-%m-%d')\<close> hands the format to the C library. With glibc, the platform the
  service runs on, \<^verbatim>\<open>%Y\<close> prints the year without padding, so that a year below 1000 has
  fewer than four digits (\<^verbatim>\<open>999-11-03\<close>); month and day have two digits.
\<close>

definition strftime_year :: "int \<Rightarrow> string" where
  "strftime_year y = dropWhile (\<lambda>c. c = CHR ''0'') (pad4 y)"

definition strftime :: "int \<Rightarrow> string" where
  "strftime ordinal =
     (case ord2ymd ordinal of (y, m, d) \<Rightarrow> strftime_year y @ ''-'' @ pad2 m @ ''-'' @ pad2 d)"


fun digits :: "nat \<Rightarrow> int \<Rightarrow> string" where
  "digits 0 n = []"
| "digits (Suc k) n = digits k (n div 10) @ [digit_char (n mod 10)]"

section \<open>Refresh mode and merge: \<^verbatim>\<open>refresher.py\<close>\<close>

text \<open>
  The values a decoded JSON field of a row or of the metadata takes in this model: \<^verbatim>\<open>None\<close>
  (JSON null), a string, or an integer. A field of type \<open>pyval option\<close> is \<open>None\<close> when the
  key is absent from the dict.
\<close>

datatype pyval = PNone | PStr string | PInt int

datatype py_error = ValueError | OverflowError | TypeError

fun truthy :: "pyval \<Rightarrow> bool" where
  "truthy PNone = False"
| "truthy (PStr s) = (s \<noteq> [])"
| "truthy (PInt n) = (n \<noteq> 0)"

text \<open>\<^verbatim>\<open>d.get(key)\<close> yields \<^verbatim>\<open>None\<close> for an absent key; \<^verbatim>\<open>a or b\<close> yields \<^verbatim>\<open>a\<close> when it is truthy.\<close>

definition dict_get :: "pyval option \<Rightarrow> pyval" where
  "dict_get field = (case field of None \<Rightarrow> PNone | Some v \<Rightarrow> v)"

definition py_or :: "pyval \<Rightarrow> pyval \<Rightarrow> pyval" where
  "py_or a b = (if truthy a then a else b)"

text \<open>
  A row of daily insights: the three fields the merge reads, and all the other fields of
  the dict as an opaque payload.
\<close>

record 'p ad_row =
  ad_id :: "pyval option"
  date_start :: "pyval option"
  date :: "pyval option"
  payload :: 'p

definition BASELINE_DAYS :: int where "BASELINE_DAYS = 90"

definition TAIL_BACKFILL_DAYS :: int where "TAIL_BACKFILL_DAYS = 3"

datatype refresh_mode = BASELINE | TAIL

text \<open>
  The baseline as \<^verbatim>\<open>_load_existing_baseline\<close> returns it: a dict of which the code reads
  \<^verbatim>\<open>metadata.reference_date\<close> and \<^verbatim>\<open>daily_ads\<close>, each through \<^verbatim>\<open>get\<close> with a default.
\<close>

record loaded_metadata =
  md_reference_date :: "pyval option"

record 'p loaded_baseline =
  lb_metadata :: "loaded_metadata option"
  lb_daily_ads :: "'p ad_row list option"

text \<open>The expression \<^verbatim>\<open>baseline.get('metadata', {}).get('reference_date')\<close>.\<close>

definition stored_reference_date :: "'p loaded_baseline \<Rightarrow> pyval" where
  "stored_reference_date b =
     dict_get (md_reference_date (get_or (lb_metadata b) \<lparr>md_reference_date = None\<rparr>))"

text \<open>
  \<^verbatim>\<open>_determine_refresh_mode\<close>. A truthy reference date that is not a string makes \<^verbatim>\<open>strptime\<close>
  raise \<^verbatim>\<open>TypeError\<close>, which the \<^verbatim>\<open>except ValueError\<close> clause does not catch.
\<close>

definition determine_refresh_mode ::
  "'p loaded_baseline option \<Rightarrow> string \<Rightarrow> py_error + (refresh_mode \<times> int)" where
  "determine_refresh_mode baseline reference_date =
     (case baseline of
        None \<Rightarrow> Inr (BASELINE, BASELINE_DAYS)
      | Some b \<Rightarrow>
          (let baseline_date = stored_reference_date b
           in if \<not> truthy baseline_date then Inr (BASELINE, BASELINE_DAYS)
              else (case baseline_date of
                      PStr s \<Rightarrow>
                        (case strptime s of
                           None \<Rightarrow> Inr (BASELINE, BASELINE_DAYS)
                         | Some baseline_dt \<Rightarrow>
                             (case strptime reference_date of
                                None \<Rightarrow> Inr (BASELINE, BASELINE_DAYS)
                              | Some reference_dt \<Rightarrow>
                                  (let age_days = reference_dt - baseline_dt
                                   in if age_days < 0 then Inr (BASELINE, BASELINE_DAYS)
                                      else Inr (TAIL, TAIL_BACKFILL_DAYS))))
                    | _ \<Rightarrow> Inl TypeError)))"

text \<open>
  \<^verbatim>\<open>_upsert_daily_ads\<close>. The index is a Python dict keyed by the pair (ad id, date): a list of
  key and row in insertion order, in which writing a present key replaces the row where it
  stands. The counters of the source only feed a log line and are left out.
\<close>

definition ad_key :: "'p ad_row \<Rightarrow> pyval \<times> pyval" where
  "ad_key ad = (dict_get (ad_id ad), py_or (dict_get (date_start ad)) (dict_get (date ad)))"

definition has_key :: "'p ad_row \<Rightarrow> bool" where
  "has_key ad = (truthy (fst (ad_key ad)) \<and> truthy (snd (ad_key ad)))"

fun index_ads ::
  "((pyval \<times> pyval) \<times> 'p ad_row) list \<Rightarrow> 'p ad_row list \<Rightarrow> ((pyval \<times> pyval) \<times> 'p ad_row) list" where
  "index_ads ads_index [] = ads_index"
| "index_ads ads_index (ad # ads) =
     (if has_key ad then index_ads (AList.update (ad_key ad) ad ads_index) ads
      else index_ads ads_index ads)"

text \<open>
  The cutoff: \<^verbatim>\<open>strptime\<close> raises \<^verbatim>\<open>ValueError\<close> on a malformed reference date, and subtracting
  the \<^verbatim>\<open>timedelta\<close> raises \<^verbatim>\<open>OverflowError\<close> when the result would precede \<^verbatim>\<open>datetime.min\<close>.
\<close>

definition cutoff_date :: "string \<Rightarrow> py_error + string" where
  "cutoff_date reference_date =
     (case strptime reference_date of
        None \<Rightarrow> Inl ValueError
      | Some reference_dt \<Rightarrow>
          if reference_dt - BASELINE_DAYS < MIN_ORDINAL then Inl OverflowError
          else Inr (strftime (reference_dt - BASELINE_DAYS)))"

text \<open>
  The cleaning loop, in the order of the index. \<^verbatim>\<open>ad_date >= cutoff_date\<close> compares two
  strings character by character; with a date that is not a string it raises \<^verbatim>\<open>TypeError\<close>.
\<close>

fun clean_ads :: "string \<Rightarrow> ((pyval \<times> pyval) \<times> 'p ad_row) list \<Rightarrow> py_error + 'p ad_row list" where
  "clean_ads cutoff [] = Inr []"
| "clean_ads cutoff (((ad_ident, ad_date), ad) # rest) =
     (case ad_date of
        PStr s \<Rightarrow>
          (case clean_ads cutoff rest of
             Inl e \<Rightarrow> Inl e
           | Inr cleaned_ads \<Rightarrow> Inr (if s \<ge> cutoff then ad # cleaned_ads else cleaned_ads))
      | _ \<Rightarrow> Inl TypeError)"

definition upsert_daily_ads ::
  "'p ad_row list \<Rightarrow> 'p ad_row list \<Rightarrow> string \<Rightarrow> py_error + 'p ad_row list" where
  "upsert_daily_ads existing_ads new_ads reference_date =
     (let ads_index = index_ads (index_ads [] existing_ads) new_ads
      in case cutoff_date reference_date of
           Inl e \<Rightarrow> Inl e
         | Inr cutoff \<Rightarrow> clean_ads cutoff ads_index)"

text \<open>
  Notions used to state the properties of the merge. \<open>keep_key cutoff\<close> is the test of the
  cleaning loop on a key whose date is a string; \<open>idx_ok\<close> is the invariant of the index:
  keys are distinct and every row sits under its own key, which has both parts truthy.
\<close>

definition keep_key :: "string \<Rightarrow> pyval \<times> pyval \<Rightarrow> bool" where
  "keep_key cutoff k = (case snd k of PStr s \<Rightarrow> s \<ge> cutoff | _ \<Rightarrow> False)"

definition str_date :: "pyval \<times> pyval \<Rightarrow> bool" where
  "str_date k = (case snd k of PStr s \<Rightarrow> True | _ \<Rightarrow> False)"

definition idx_ok :: "((pyval \<times> pyval) \<times> 'p ad_row) list \<Rightarrow> bool" where
  "idx_ok idx = (distinct (map fst idx) \<and> (\<forall>(k, ad) \<in> set idx. ad_key ad = k \<and> has_key ad))"

text \<open>Rows of the examples: the payload is the spend.\<close>

definition daily_row :: "string \<Rightarrow> string \<Rightarrow> nat \<Rightarrow> nat ad_row" where
  "daily_row ad_ident day spend =
     \<lparr>ad_id = Some (PStr ad_ident), date_start = Some (PStr day), date = None, payload = spend\<rparr>"

definition row_without_id :: "nat ad_row" where
  "row_without_id =
     \<lparr>ad_id = None, date_start = Some (PStr ''2024-03-05''), date = None, payload = 1\<rparr>"

definition row_without_date :: "nat ad_row" where
  "row_without_date =
     \<lparr>ad_id = Some (PStr ''a9''), date_start = Some (PStr ''''), date = Some PNone, payload = 2\<rparr>"

section \<open>One synchronisation run: \<^verbatim>\<open>sync_account_data\<close>\<close>

text \<open>
  The collaborators of a run are parameters. \<open>env_account_name\<close> is the name of the ad account
  row (\<open>None\<close> when the query finds none), \<open>env_oauth_token\<close> the stored encrypted token,
  \<open>env_decrypt\<close> the decryption (\<open>None\<close> when it raises), \<open>env_today\<close> the UTC date of the run,
  \<open>env_now\<close> the text of the clock, \<open>env_existing_baseline\<close> the result of
  \<^verbatim>\<open>_load_existing_baseline\<close>. \<open>env_get_insights_daily since until\<close> is the client's fetch of
  one window, given the ISO texts of its two dates. \<open>env_enrich\<close> gives the rows as
  \<^verbatim>\<open>enrich_ads_with_creatives\<close> leaves them, whether it returns or raises (it updates the rows
  in place and its exceptions are swallowed). \<open>env_set_account\<close> writes the two account
  fields into a payload. \<open>env_transform\<close> and \<open>env_validate\<close> are the columnar transform (\<open>None\<close>
  when it raises) and its validation; \<open>env_ads_count\<close> is the length of the \<^verbatim>\<open>ads\<close> list of the
  aggregate shard. \<open>env_put_fails key\<close> tells whether \<^verbatim>\<open>storage.put_object\<close> raises for a key.
\<close>

datatype fetch_error = MetaAPIError | OtherFetchError

record ('p, 's) sync_env =
  env_tenant_id :: string
  env_ad_account_id :: string
  env_account_name :: "string option"
  env_oauth_token :: "string option"
  env_decrypt :: "string \<Rightarrow> string option"
  env_today :: int
  env_now :: string
  env_existing_baseline :: "'p loaded_baseline option"
  env_get_insights_daily :: "string \<Rightarrow> string \<Rightarrow> fetch_error + 'p ad_row list"
  env_enrich :: "'p ad_row list \<Rightarrow> 'p ad_row list"
  env_set_account :: "string \<Rightarrow> string \<Rightarrow> 'p \<Rightarrow> 'p"
  env_transform :: "'p ad_row list \<Rightarrow> string \<Rightarrow> ('s \<times> 's \<times> 's) option"
  env_validate :: "'s \<Rightarrow> 's \<Rightarrow> 's \<Rightarrow> string list"
  env_ads_count :: "'s \<Rightarrow> nat"
  env_put_fails :: "string \<Rightarrow> bool"

text \<open>The raw dataset written under \<^verbatim>\<open>baseline_daily.json\<close>: its metadata and the rows.\<close>

record 'p baseline_data =
  bd_timestamp :: string
  bd_reference_date :: string
  bd_mode :: refresh_mode
  bd_days_fetched :: int
  bd_total_daily_rows :: nat
  bd_unique_ads :: nat
  bd_baseline_days :: int
  bd_tail_backfill_days :: int
  bd_daily_ads :: "'p ad_row list"

text \<open>
  What the store holds under a key: the raw dataset, a shard, or the manifest (of which the
  version, the number of ads, the mode and the retention are kept).
\<close>

datatype ('p, 's) stored_object =
    BaselineObject "'p baseline_data"
  | ShardObject 's
  | ManifestObject string nat refresh_mode int

text \<open>
  The state a run changes: the durable store (keys to objects), the windows requested from
  the provider so far, as pairs of dates, and the account's \<^verbatim>\<open>last_refresh_at\<close>.
\<close>

record ('p, 's) sync_state =
  store :: "(string \<times> ('p, 's) stored_object) list"
  fetched_windows :: "(int \<times> int) list"
  last_refresh_at :: "string option"

datatype refresh_error =
    AccountNotFound
  | NoOAuthToken
  | DecryptFailed
  | MetaAPIFailure
  | TransformFailed
  | ValidationFailed "string list"
  | WriteFailed string
  | Unhandled

record sync_result =
  res_refresh_mode :: refresh_mode
  res_days_fetched :: int
  res_unique_ads :: nat
  res_files_written :: "string list"
  res_refreshed_at :: string
  res_date_range :: "string \<times> string"

definition CHUNK_SIZE_DAYS :: int where "CHUNK_SIZE_DAYS = 30"

text \<open>
  The \<^verbatim>\<open>while chunk_start <= end_date\<close> loop: one fetch per chunk, in order, the rows
  appended; a \<^verbatim>\<open>MetaAPIError\<close> (or any other exception) leaves the loop at once. The second
  component lists the windows requested.
\<close>

function fetch_chunks ::
  "(string \<Rightarrow> string \<Rightarrow> fetch_error + 'p ad_row list) \<Rightarrow> int \<Rightarrow> int \<Rightarrow> 'p ad_row list
     \<Rightarrow> (fetch_error + 'p ad_row list) \<times> (int \<times> int) list" where
  "fetch_chunks get_insights chunk_start end_date daily_insights =
     (if chunk_start \<le> end_date
      then (let chunk_end = min (chunk_start + (CHUNK_SIZE_DAYS - 1)) end_date
            in case get_insights (isoformat chunk_start) (isoformat chunk_end) of
                 Inl e \<Rightarrow> (Inl e, [(chunk_start, chunk_end)])
               | Inr chunk_data \<Rightarrow>
                   (case fetch_chunks get_insights (chunk_end + 1) end_date
                           (daily_insights @ chunk_data) of
                      (res, windows) \<Rightarrow> (res, (chunk_start, chunk_end) # windows)))
      else (Inr daily_insights, []))"
  by pat_completeness auto
termination
  by (relation "measure (\<lambda>(get_insights, chunk_start, end_date, daily_insights).
        nat (end_date - chunk_start + 1))")
     (auto simp: CHUNK_SIZE_DAYS_def)

text \<open>Step 7 of the run: chunked when the window is longer than the chunk size.\<close>

definition fetch_daily_insights ::
  "(string \<Rightarrow> string \<Rightarrow> fetch_error + 'p ad_row list) \<Rightarrow> int \<Rightarrow> int
     \<Rightarrow> (fetch_error + 'p ad_row list) \<times> (int \<times> int) list" where
  "fetch_daily_insights get_insights today days_to_fetch =
     (if days_to_fetch > CHUNK_SIZE_DAYS
      then fetch_chunks get_insights (today - days_to_fetch) (today - 1) []
      else (get_insights (isoformat (today - days_to_fetch)) (isoformat (today - 1)),
            [(today - days_to_fetch, today - 1)]))"

text \<open>Step 10: upsert into the existing rows in TAIL mode, the fetched rows alone otherwise.\<close>

definition merge_rows ::
  "refresh_mode \<Rightarrow> 'p loaded_baseline option \<Rightarrow> 'p ad_row list \<Rightarrow> string
     \<Rightarrow> py_error + 'p ad_row list" where
  "merge_rows mode existing_baseline daily_insights reference_date =
     (case existing_baseline of
        Some b \<Rightarrow>
          if mode = TAIL
          then upsert_daily_ads (get_or (lb_daily_ads b) []) daily_insights reference_date
          else Inr daily_insights
      | None \<Rightarrow> Inr daily_insights)"

definition put_object ::
  "('p, 's) sync_env \<Rightarrow> ('p, 's) sync_state \<Rightarrow> string \<Rightarrow> ('p, 's) stored_object
     \<Rightarrow> ('p, 's) sync_state option" where
  "put_object env st key obj =
     (if env_put_fails env key then None
      else Some (st\<lparr>store := AList.update key obj (store st)\<rparr>))"

definition base_path :: "('p, 's) sync_env \<Rightarrow> string" where
  "base_path env =
     ''tenants/'' @ env_tenant_id env @ ''/accounts/'' @ env_ad_account_id env @ ''/data''"

definition baseline_key :: "('p, 's) sync_env \<Rightarrow> string" where
  "baseline_key env = base_path env @ ''/baseline_daily.json''"

definition optimized_path :: "('p, 's) sync_env \<Rightarrow> string" where
  "optimized_path env = base_path env @ ''/optimized''"

text \<open>Step 14: the loop over the three shard files; a failed write leaves the run.\<close>

fun write_shards ::
  "('p, 's) sync_env \<Rightarrow> ('p, 's) sync_state \<Rightarrow> (string \<times> 's) list \<Rightarrow> string list
     \<Rightarrow> (refresh_error + string list) \<times> ('p, 's) sync_state" where
  "write_shards env st [] files_written = (Inr files_written, st)"
| "write_shards env st ((filename, data) # rest) files_written =
     (case put_object env st (optimized_path env @ ''/'' @ filename) (ShardObject data) of
        None \<Rightarrow> (Inl (WriteFailed filename), st)
      | Some st' \<Rightarrow> write_shards env st' rest (files_written @ [filename]))"

text \<open>
  Steps 11 to 16: transform, validate, write the raw dataset, write the shards and the
  manifest, record the outcome. Each failure leaves the run with the state reached so far.
\<close>

definition write_outputs ::
  "('p, 's) sync_env \<Rightarrow> ('p, 's) sync_state \<Rightarrow> refresh_mode \<Rightarrow> int \<Rightarrow> string
     \<Rightarrow> 'p ad_row list \<Rightarrow> (refresh_error + sync_result) \<times> ('p, 's) sync_state" where
  "write_outputs env st mode days_to_fetch reference_date all_daily_ads =
     (case env_transform env all_daily_ads reference_date of
        None \<Rightarrow> (Inl TransformFailed, st)
      | Some (meta_v1, agg_v1, summary_v1) \<Rightarrow>
          (let validation_errors = env_validate env meta_v1 agg_v1 summary_v1
           in if validation_errors \<noteq> [] then (Inl (ValidationFailed validation_errors), st)
              else
               (let baseline_data =
                      \<lparr>bd_timestamp = env_now env,
                       bd_reference_date = reference_date,
                       bd_mode = mode,
                       bd_days_fetched = days_to_fetch,
                       bd_total_daily_rows = length all_daily_ads,
                       bd_unique_ads = env_ads_count env agg_v1,
                       bd_baseline_days = BASELINE_DAYS,
                       bd_tail_backfill_days = TAIL_BACKFILL_DAYS,
                       bd_daily_ads = all_daily_ads\<rparr>
                in case put_object env st (baseline_key env) (BaselineObject baseline_data) of
                     None \<Rightarrow> (Inl (WriteFailed ''baseline_daily.json''), st)
                   | Some st1 \<Rightarrow>
                       (case write_shards env st1
                               [(''meta_v1.json'', meta_v1), (''agg_v1.json'', agg_v1),
                                (''summary_v1.json'', summary_v1)]
                               [''baseline_daily.json''] of
                          (Inl e, st2) \<Rightarrow> (Inl e, st2)
                        | (Inr files_written, st2) \<Rightarrow>
                            (case put_object env st2 (optimized_path env @ ''/manifest.json'')
                                    (ManifestObject (env_now env) (env_ads_count env agg_v1)
                                       mode BASELINE_DAYS) of
                               None \<Rightarrow> (Inl (WriteFailed ''manifest.json''), st2)
                             | Some st3 \<Rightarrow>
                                 (Inr \<lparr>res_refresh_mode = mode,
                                       res_days_fetched = days_to_fetch,
                                       res_unique_ads = env_ads_count env agg_v1,
                                       res_files_written = files_written @ [''manifest.json''],
                                       res_refreshed_at = env_now env,
                                       res_date_range =
                                         (isoformat (env_today env - days_to_fetch),
                                          reference_date)\<rparr>,
                                  st3\<lparr>last_refresh_at := Some (env_now env)\<rparr>))))))"

text \<open>Steps 8 and 9: the rows after enrichment, with the account fields set on each.\<close>

definition enriched_rows :: "('p, 's) sync_env \<Rightarrow> string \<Rightarrow> 'p ad_row list \<Rightarrow> 'p ad_row list" where
  "enriched_rows env account_name daily_insights =
     map (\<lambda>ad. ad\<lparr>payload := env_set_account env account_name (env_ad_account_id env) (payload ad)\<rparr>)
       (env_enrich env daily_insights)"

text \<open>
  The whole run. An exception that no handler of the function catches (a \<^verbatim>\<open>TypeError\<close> of the
  mode decision or of the merge, an exception of the fetch other than \<^verbatim>\<open>MetaAPIError\<close>) is
  \<open>Unhandled\<close>.
\<close>

definition sync_account_data ::
  "('p, 's) sync_env \<Rightarrow> ('p, 's) sync_state
     \<Rightarrow> (refresh_error + sync_result) \<times> ('p, 's) sync_state" where
  "sync_account_data env st =
     (case env_account_name env of
        None \<Rightarrow> (Inl AccountNotFound, st)
      | Some account_name \<Rightarrow>
     (case env_oauth_token env of
        None \<Rightarrow> (Inl NoOAuthToken, st)
      | Some oauth_token \<Rightarrow>
     (case env_decrypt env oauth_token of
        None \<Rightarrow> (Inl DecryptFailed, st)
      | Some access_token \<Rightarrow>
     (let reference_date = isoformat (env_today env - 1)
      in case determine_refresh_mode (env_existing_baseline env) reference_date of
        Inl e \<Rightarrow> (Inl Unhandled, st)
      | Inr (refresh_mode, days_to_fetch) \<Rightarrow>
     (case fetch_daily_insights (env_get_insights_daily env) (env_today env) days_to_fetch of
        (fetched, windows) \<Rightarrow>
     (let st1 = st\<lparr>fetched_windows := fetched_windows st @ windows\<rparr>
      in case fetched of
        Inl MetaAPIError \<Rightarrow> (Inl MetaAPIFailure, st1)
      | Inl OtherFetchError \<Rightarrow> (Inl Unhandled, st1)
      | Inr daily_insights \<Rightarrow>
     (case merge_rows refresh_mode (env_existing_baseline env)
             (enriched_rows env account_name daily_insights) reference_date of
        Inl e \<Rightarrow> (Inl Unhandled, st1)
      | Inr all_daily_ads \<Rightarrow>
          write_outputs env st1 refresh_mode days_to_fetch reference_date all_daily_ads)))))))"

text \<open>
  A run used in the examples: no prior dataset, today is 2024-04-02, the provider returns two
  rows with the same key for the newest chunk and nothing for the others, the transform
  yields three shards which are the row counts, and validation reports \<open>errors\<close>.
\<close>

definition example_env :: "string list \<Rightarrow> (nat, nat) sync_env" where
  "example_env errors =
     \<lparr>env_tenant_id = ''t1'',
      env_ad_account_id = ''act_1'',
      env_account_name = Some ''Shop'',
      env_oauth_token = Some ''secret'',
      env_decrypt = (\<lambda>tok. Some tok),
      env_today = 738978,
      env_now = ''2024-04-02T03:00:00+00:00'',
      env_existing_baseline = None,
      env_get_insights_daily =
        (\<lambda>since until. if until = ''2024-04-01''
           then Inr [daily_row ''a1'' ''2024-03-31'' 10, daily_row ''a1'' ''2024-03-31'' 15]
           else Inr []),
      env_enrich = (\<lambda>rows. rows),
      env_set_account = (\<lambda>name acct p. p),
      env_transform = (\<lambda>rows ref. Some (length rows, length rows, length rows)),
      env_validate = (\<lambda>m a s. errors),
      env_ads_count = (\<lambda>a. a),
      env_put_fails = (\<lambda>key. False)\<rparr>"

definition state0 :: "(nat, nat) sync_state" where
  "state0 = \<lparr>store = [], fetched_windows = [], last_refresh_at = None\<rparr>"

text \<open>The rows of the raw dataset that the store holds under a key, if it holds one.\<close>

definition persisted_rows :: "('p, 's) sync_state \<Rightarrow> string \<Rightarrow> 'p ad_row list option" where
  "persisted_rows st key =
     (case map_of (store st) key of
        Some (BaselineObject bd) \<Rightarrow> Some (bd_daily_ads bd)
      | _ \<Rightarrow> None)"

text \<open>The rows that the fetch of one window returns (none when it raises).\<close>

definition window_rows ::
  "(string \<Rightarrow> string \<Rightarrow> fetch_error + 'p ad_row list) \<Rightarrow> int \<times> int \<Rightarrow> 'p ad_row list" where
  "window_rows get_insights w =
     (case get_insights (isoformat (fst w)) (isoformat (snd w)) of
        Inr chunk_data \<Rightarrow> chunk_data
      | Inl e \<Rightarrow> [])"


section \<open>Verified properties\<close>

subsection \<open>Retry classification\<close>

text \<open>
  C1. The claim: a 4xx status other than 429, such as 404, gets exactly one attempt and no
  backoff sleep. The code calls \<^verbatim>\<open>raise_for_status\<close> inside the \<^verbatim>\<open>try\<close> block whose handler
  catches \<^verbatim>\<open>HTTPStatusError\<close>, so against a server that answers 404 every time, with the
  default budget of 4 attempts, it sends 4 requests and sleeps 3 times before it raises
  \<^verbatim>\<open>MetaAPIError\<close>, exactly as it does for status 500.
\<close>

theorem request_with_retry_404_is_retried:
  "request_with_retry GET (\<lambda>a. Responds 404 no_headers (None :: unit option))
       (\<lambda>a. 1) (\<lambda>a. 0) (2 / 5) 4 ''global'' monitor0
     = (Inl (MetaAPIError_after_attempts 4),
        [Request 1, Backoff (2 / 5), Request 2, Backoff (4 / 5), Request 3, Backoff (8 / 5),
         Request 4],
        \<lparr>usage_by_account = [(''global'', usage_info0)], global_usage = 0\<rparr>)"
  by code_simp

subsection \<open>The monitor's global usage\<close>

lemma global_usage_check [simp]:
  "global_usage (snd (check_and_throttle m j a)) = global_usage m"
  by (simp add: check_and_throttle_def split: option.splits)

lemma global_usage_parse [simp]:
  "global_usage (snd (parse_headers m h a)) =
     max (global_usage m) (usage_percent (parse_headers_info h))"
  by (simp add: parse_headers_def Let_def)



lemma set_update_subset: "set (AList.update k v al) \<subseteq> insert (k, v) (set al)"
  by (induction al) auto






subsection \<open>Precedence of the usage headers\<close>

lemma usage_percent_pause_decision [simp]: "usage_percent (pause_decision ui) = usage_percent ui"
  by (simp add: pause_decision_def)

lemma usage_percent_buc_step [simp]:
  "usage_percent (buc_step ui u) = max (usage_percent ui) (max_usage u)"
  by (simp add: buc_step_def buc_percent_def Let_def)







subsection \<open>The merge\<close>

lemma clean_ads_Inr_iff:
  "clean_ads c idx = Inr M \<longleftrightarrow>
     list_all (\<lambda>p. str_date (fst p)) idx \<and> M = map snd (filter (\<lambda>p. keep_key c (fst p)) idx)"
proof (induction idx arbitrary: M)
  case Nil
  then show ?case by auto
next
  case (Cons p idx)
  obtain i d ad where p: "p = ((i, d), ad)" by (cases p) auto
  show ?case
  proof (cases d)
    case (PStr s)
    then show ?thesis using Cons.IH p
      by (cases "clean_ads c idx") (auto simp: str_date_def keep_key_def)
  qed (simp_all add: p str_date_def)
qed

lemma filter_update_out:
  "\<not> P k \<Longrightarrow> filter (\<lambda>p. P (fst p)) (AList.update k v al) = filter (\<lambda>p. P (fst p)) al"
  by (induction al) auto

lemma filter_update_in:
  "P k \<Longrightarrow> filter (\<lambda>p. P (fst p)) (AList.update k v al) = AList.update k v (filter (\<lambda>p. P (fst p)) al)"
  by (induction al) auto

lemma filter_index_ads:
  "filter (\<lambda>p. P (fst p)) (index_ads X B)
     = index_ads (filter (\<lambda>p. P (fst p)) X) (filter (\<lambda>b. P (ad_key b)) B)"
  by (induction B arbitrary: X) (simp_all add: filter_update_in filter_update_out)

lemma keys_index_ads:
  "fst ` set (index_ads X B) = fst ` set X \<union> ad_key ` {b \<in> set B. has_key b}"
  by (induction B arbitrary: X) (auto simp: AList.dom_update)

lemma distinct_index_ads:
  "distinct (map fst X) \<Longrightarrow> distinct (map fst (index_ads X B))"
  by (induction B arbitrary: X) (simp_all add: AList.distinct_update)

lemma idx_ok_update: "idx_ok X \<Longrightarrow> has_key b \<Longrightarrow> idx_ok (AList.update (ad_key b) b X)"
  using set_update_subset[of "ad_key b" b X]
  by (fastforce simp: idx_ok_def AList.distinct_update)

lemma idx_ok_index_ads: "idx_ok X \<Longrightarrow> idx_ok (index_ads X B)"
  by (induction B arbitrary: X) (simp_all add: idx_ok_update)

lemma idx_ok_filter: "idx_ok X \<Longrightarrow> idx_ok (filter P X)"
  by (auto simp: idx_ok_def distinct_map_filter)

lemma keys_index_ads_same:
  "ad_key ` {b \<in> set B. has_key b} \<subseteq> fst ` set X \<Longrightarrow> map fst (index_ads X B) = map fst X"
proof (induction B arbitrary: X)
  case Nil
  then show ?case by simp
next
  case (Cons b B)
  show ?case
  proof (cases "has_key b")
    case True
    with Cons.prems have in_X: "ad_key b \<in> fst ` set X" by auto
    then have k: "map fst (AList.update (ad_key b) b X) = map fst X"
      by (simp add: AList.update_keys)
    then have "fst ` set (AList.update (ad_key b) b X) = fst ` set X"
      by (metis list.set_map)
    with Cons.prems have "ad_key ` {b \<in> set B. has_key b} \<subseteq> fst ` set (AList.update (ad_key b) b X)"
      by auto
    from Cons.IH[OF this] k True show ?thesis by simp
  next
    case False
    with Cons.prems have "ad_key ` {b \<in> set B. has_key b} \<subseteq> fst ` set X" by auto
    from Cons.IH[OF this] False show ?thesis by simp
  qed
qed

lemma map_add_upd_left:
  "m1(k \<mapsto> v) ++ m2 = m1 ++ ([k \<mapsto> v] ++ m2)"
  by (auto simp: fun_eq_iff map_add_def split: option.splits)

lemma map_of_index_ads:
  "map_of (index_ads X B) = map_of X ++ map_of (index_ads [] B)"
proof (induction B arbitrary: X)
  case Nil
  then show ?case by simp
next
  case (Cons b B)
  show ?case
  proof (cases "has_key b")
    case True
    have "map_of (index_ads [] (b # B)) = map_of (index_ads [(ad_key b, b)] B)"
      using True by simp
    also have "\<dots> = map_of [(ad_key b, b)] ++ map_of (index_ads [] B)"
      by (rule Cons.IH)
    also have "map_of [(ad_key b, b)] = [ad_key b \<mapsto> b]"
      by simp
    finally have one:
      "map_of (index_ads [] (b # B)) = [ad_key b \<mapsto> b] ++ map_of (index_ads [] B)" .
    have "map_of (index_ads X (b # B))
        = map_of (AList.update (ad_key b) b X) ++ map_of (index_ads [] B)"
      using True Cons.IH[of "AList.update (ad_key b) b X"] by simp
    also have "\<dots> = (map_of X)(ad_key b \<mapsto> b) ++ map_of (index_ads [] B)"
      by (simp only: AList.update_conv')
    also have "\<dots> = map_of X ++ ([ad_key b \<mapsto> b] ++ map_of (index_ads [] B))"
      by (rule map_add_upd_left)
    finally show ?thesis by (simp only: one)
  next
    case False
    then show ?thesis using Cons.IH[of X] by simp
  qed
qed

lemma alist_eqI:
  "map fst xs = map fst ys \<Longrightarrow> distinct (map fst xs) \<Longrightarrow> map_of xs = map_of ys \<Longrightarrow> xs = ys"
proof (induction xs arbitrary: ys)
  case Nil
  then show ?case by simp
next
  case (Cons x xs)
  then obtain y ys' where ys: "ys = y # ys'" by (cases ys) auto
  from Cons.prems(1,2) ys have fst: "fst x = fst y" and keys: "map fst xs = map fst ys'"
    and dist: "distinct (map fst xs)" and notin: "fst x \<notin> set (map fst xs)" by auto
  have eq: "map_of (x # xs) k = map_of (y # ys') k" for k
    using Cons.prems(3)[unfolded ys] by (rule fun_cong)
  from eq[of "fst x"] fst have xy: "x = y" by (cases x, cases y) auto
  have "map_of xs = map_of ys'"
  proof
    fix k
    show "map_of xs k = map_of ys' k"
    proof (cases "k = fst x")
      case True
      from notin have "map_of xs (fst x) = None" by (simp add: map_of_eq_None_iff)
      moreover from notin keys have "map_of ys' (fst x) = None"
        by (simp add: map_of_eq_None_iff)
      ultimately show ?thesis using True by simp
    next
      case False
      with eq[of k] xy show ?thesis by (cases x) auto
    qed
  qed
  from Cons.IH[OF keys dist this] xy ys show ?case by simp
qed

lemma index_ads_idem:
  assumes "distinct (map fst X)"
  shows "index_ads (index_ads X B) B = index_ads X B"
proof (rule alist_eqI)
  have "ad_key ` {b \<in> set B. has_key b} \<subseteq> fst ` set (index_ads X B)"
    by (simp add: keys_index_ads)
  then show "map fst (index_ads (index_ads X B) B) = map fst (index_ads X B)"
    by (rule keys_index_ads_same)
  then show "distinct (map fst (index_ads (index_ads X B) B))"
    using assms by (simp add: distinct_index_ads)
  show "map_of (index_ads (index_ads X B) B) = map_of (index_ads X B)"
    using map_of_index_ads[of "index_ads X B" B] map_of_index_ads[of X B]
    by (auto simp: map_add_def fun_eq_iff split: option.splits)
qed

lemma reindex_aux:
  "idx_ok (J0 @ J) \<Longrightarrow> index_ads J0 (map snd J) = J0 @ J"
proof (induction J arbitrary: J0)
  case Nil
  then show ?case by simp
next
  case (Cons p J)
  obtain k ad where p: "p = (k, ad)" by (cases p)
  from Cons.prems p have key: "ad_key ad = k" and hk: "has_key ad" and notin: "k \<notin> fst ` set J0"
    by (auto simp: idx_ok_def)
  have upd: "AList.update k ad J0 = J0 @ [(k, ad)]"
    using notin by (induction J0) auto
  from Cons.prems p have "idx_ok ((J0 @ [(k, ad)]) @ J)" by simp
  from Cons.IH[OF this] show ?case using p key hk upd by simp
qed

lemma reindex: "idx_ok J \<Longrightarrow> index_ads [] (map snd J) = J"
  using reindex_aux[of "[]" J] by simp


lemma idx_ok_Nil: "idx_ok []" by (simp add: idx_ok_def)

lemma upsert_Inr_iff:
  "upsert_daily_ads A B ref = Inr M \<longleftrightarrow>
     (\<exists>c. cutoff_date ref = Inr c
        \<and> list_all (\<lambda>p. str_date (fst p)) (index_ads (index_ads [] A) B)
        \<and> M = map snd (filter (\<lambda>p. keep_key c (fst p)) (index_ads (index_ads [] A) B)))"
  by (cases "cutoff_date ref") (simp_all add: upsert_daily_ads_def Let_def clean_ads_Inr_iff)

lemma upsert_InrD:
  assumes "upsert_daily_ads A B ref = Inr M"
  obtains c where "cutoff_date ref = Inr c"
    and "list_all (\<lambda>p. str_date (fst p)) (index_ads (index_ads [] A) B)"
    and "M = map snd (filter (\<lambda>p. keep_key c (fst p)) (index_ads (index_ads [] A) B))"
proof -
  from assms have "\<exists>c. cutoff_date ref = Inr c
        \<and> list_all (\<lambda>p. str_date (fst p)) (index_ads (index_ads [] A) B)
        \<and> M = map snd (filter (\<lambda>p. keep_key c (fst p)) (index_ads (index_ads [] A) B))"
    by (simp only: upsert_Inr_iff)
  then show ?thesis using that by (elim exE conjE)
qed

lemma upsert_again:
  assumes "upsert_daily_ads A B ref = Inr M"
  shows "upsert_daily_ads M B ref = Inr M"
proof -
  define I where "I = index_ads (index_ads [] A) B"
  from assms obtain c where c: "cutoff_date ref = Inr c"
    and str: "list_all (\<lambda>p. str_date (fst p)) I"
    and M: "M = map snd (filter (\<lambda>p. keep_key c (fst p)) I)"
    unfolding I_def by (rule upsert_InrD)
  define J where "J = filter (\<lambda>p. keep_key c (fst p)) I"
  define JA where "JA = filter (\<lambda>p. keep_key c (fst p)) (index_ads [] A)"
  define B' where "B' = filter (\<lambda>b. keep_key c (ad_key b)) B"
  have okI: "idx_ok I" unfolding I_def by (intro idx_ok_index_ads idx_ok_Nil)
  then have okJ: "idx_ok J" unfolding J_def by (rule idx_ok_filter)
  have MJ: "M = map snd J" using M J_def by simp
  have re: "index_ads [] M = J" unfolding MJ by (rule reindex[OF okJ])
  have J_eq: "J = index_ads JA B'"
    unfolding J_def I_def JA_def B'_def by (rule filter_index_ads)
  have "idx_ok JA"
    unfolding JA_def by (intro idx_ok_filter idx_ok_index_ads idx_ok_Nil)
  then have distJA: "distinct (map fst JA)"
    by (simp add: idx_ok_def)
  have "filter (\<lambda>p. keep_key c (fst p)) (index_ads J B)
      = index_ads (filter (\<lambda>p. keep_key c (fst p)) J) B'"
    unfolding B'_def by (rule filter_index_ads)
  also have "filter (\<lambda>p. keep_key c (fst p)) J = J" unfolding J_def by simp
  also have "index_ads J B' = J"
    using index_ads_idem[OF distJA, of B'] J_eq by simp
  finally have keep: "filter (\<lambda>p. keep_key c (fst p)) (index_ads J B) = J" .
  have "fst ` set J \<subseteq> fst ` set I" unfolding J_def by auto
  moreover have "ad_key ` {b \<in> set B. has_key b} \<subseteq> fst ` set I"
    unfolding I_def keys_index_ads by simp
  ultimately have "fst ` set (index_ads J B) \<subseteq> fst ` set I"
    unfolding keys_index_ads[of J B] by simp
  moreover from str have "\<forall>k \<in> fst ` set I. str_date k"
    unfolding list_all_iff by simp
  ultimately have "\<forall>k \<in> fst ` set (index_ads J B). str_date k" by blast
  then have s2: "list_all (\<lambda>p. str_date (fst p)) (index_ads J B)"
    unfolding list_all_iff by simp
  have "upsert_daily_ads M B ref = Inr M \<longleftrightarrow>
     (\<exists>c. cutoff_date ref = Inr c
        \<and> list_all (\<lambda>p. str_date (fst p)) (index_ads J B)
        \<and> M = map snd (filter (\<lambda>p. keep_key c (fst p)) (index_ads J B)))"
    unfolding re[symmetric] by (rule upsert_Inr_iff)
  moreover have "M = map snd (filter (\<lambda>p. keep_key c (fst p)) (index_ads J B))"
    unfolding keep by (rule MJ)
  ultimately show ?thesis using c s2 by blast
qed

lemma snd_update_subset: "snd ` set (AList.update k v al) \<subseteq> insert v (snd ` set al)"
  by (induction al) auto

lemma snd_index_ads: "snd ` set (index_ads X B) \<subseteq> snd ` set X \<union> set B"
proof (induction B arbitrary: X)
  case Nil
  then show ?case by simp
next
  case (Cons b B)
  show ?case
  proof (cases "has_key b")
    case True
    with Cons.IH[of "AList.update (ad_key b) b X"] snd_update_subset[of "ad_key b" b X]
    show ?thesis by auto
  next
    case False
    with Cons.IH[of X] show ?thesis by auto
  qed
qed

lemma upsert_rows:
  assumes "upsert_daily_ads A B ref = Inr M" and "ad \<in> set M"
  shows "has_key ad \<and> ad \<in> set A \<union> set B"
proof -
  define I where "I = index_ads (index_ads [] A) B"
  from assms(1) obtain c where M: "M = map snd (filter (\<lambda>p. keep_key c (fst p)) I)"
    unfolding I_def by (rule upsert_InrD)
  have okI: "idx_ok I" unfolding I_def by (intro idx_ok_index_ads idx_ok_Nil)
  from assms(2) M obtain k where in_I: "(k, ad) \<in> set I" by auto
  with okI have key: "ad_key ad = k" and hk: "has_key ad" by (auto simp: idx_ok_def)
  from snd_index_ads[of "index_ads [] A" B] snd_index_ads[of "[]" A]
  have "snd ` set I \<subseteq> set A \<union> set B"
    unfolding I_def by auto
  moreover from in_I have "ad \<in> snd ` set I" by force
  ultimately have "ad \<in> set A \<union> set B" by blast
  with hk show ?thesis by simp
qed

text \<open>
  C6. The merge is idempotent: merging the same new rows into the result of a merge, with the
  same reference date, gives that result again. Where the first merge raises, so does the
  composition, with the same exception.
\<close>

theorem upsert_idempotent:
  "(case upsert_daily_ads A B ref of Inl e \<Rightarrow> Inl e | Inr M \<Rightarrow> upsert_daily_ads M B ref)
     = upsert_daily_ads A B ref"
  by (cases "upsert_daily_ads A B ref") (simp_all add: upsert_again)

theorem upsert_idempotent_witness:
  "upsert_daily_ads
      [daily_row ''a1'' ''2024-01-01'' 10, daily_row ''a1'' ''2024-03-01'' 11]
      [daily_row ''a2'' ''2024-03-02'' 7, daily_row ''a1'' ''2024-03-01'' 15,
       daily_row ''a3'' ''2023-12-31'' 3] ''2024-04-01''
     = Inr [daily_row ''a1'' ''2024-03-01'' 15, daily_row ''a2'' ''2024-03-02'' 7]
   \<and> upsert_daily_ads
      [daily_row ''a1'' ''2024-03-01'' 15, daily_row ''a2'' ''2024-03-02'' 7]
      [daily_row ''a2'' ''2024-03-02'' 7, daily_row ''a1'' ''2024-03-01'' 15,
       daily_row ''a3'' ''2023-12-31'' 3] ''2024-04-01''
     = Inr [daily_row ''a1'' ''2024-03-01'' 15, daily_row ''a2'' ''2024-03-02'' 7]"
proof -
  have h: "upsert_daily_ads
      [daily_row ''a1'' ''2024-01-01'' 10, daily_row ''a1'' ''2024-03-01'' 11]
      [daily_row ''a2'' ''2024-03-02'' 7, daily_row ''a1'' ''2024-03-01'' 15,
       daily_row ''a3'' ''2023-12-31'' 3] ''2024-04-01''
     = Inr [daily_row ''a1'' ''2024-03-01'' 15, daily_row ''a2'' ''2024-03-02'' 7]"
    by code_simp
  show ?thesis
    using upsert_idempotent[where
        A = "[daily_row ''a1'' ''2024-01-01'' 10, daily_row ''a1'' ''2024-03-01'' 11]"
        and B = "[daily_row ''a2'' ''2024-03-02'' 7, daily_row ''a1'' ''2024-03-01'' 15,
          daily_row ''a3'' ''2023-12-31'' 3]"
        and ref = "''2024-04-01''"]
    by (simp add: h)
qed

text \<open>
  C10. The merge excludes rows without a key: when it returns, every row of the result has a
  truthy (non-empty) ad id and a truthy date, and a row of either input that lacks one of the
  two is not in the result.
\<close>

theorem upsert_excludes_keyless:
  assumes "upsert_daily_ads A B ref = Inr M"
  shows "(\<forall>ad \<in> set M. truthy (dict_get (ad_id ad))
                  \<and> truthy (py_or (dict_get (date_start ad)) (dict_get (date ad))))
         \<and> (\<forall>ad \<in> set A \<union> set B. \<not> has_key ad \<longrightarrow> ad \<notin> set M)"
  using upsert_rows[OF assms] by (auto simp: has_key_def ad_key_def)

theorem upsert_excludes_keyless_witness:
  "upsert_daily_ads [daily_row ''a1'' ''2024-03-01'' 10, row_without_id]
      [row_without_date, daily_row [] ''2024-03-02'' 5, daily_row ''a2'' ''2024-03-02'' 7]
      ''2024-04-01''
     = Inr [daily_row ''a1'' ''2024-03-01'' 10, daily_row ''a2'' ''2024-03-02'' 7]
   \<and> \<not> has_key row_without_id \<and> \<not> has_key row_without_date
   \<and> \<not> has_key (daily_row [] ''2024-03-02'' 5)
   \<and> row_without_id \<notin> set [daily_row ''a1'' ''2024-03-01'' 10, daily_row ''a2'' ''2024-03-02'' 7]
   \<and> truthy (dict_get (ad_id (daily_row ''a2'' ''2024-03-02'' 7)))"
proof -
  have h: "upsert_daily_ads [daily_row ''a1'' ''2024-03-01'' 10, row_without_id]
      [row_without_date, daily_row [] ''2024-03-02'' 5, daily_row ''a2'' ''2024-03-02'' 7]
      ''2024-04-01''
     = Inr [daily_row ''a1'' ''2024-03-01'' 10, daily_row ''a2'' ''2024-03-02'' 7]"
    by code_simp
  have k: "\<not> has_key row_without_id" "\<not> has_key row_without_date"
    "\<not> has_key (daily_row [] ''2024-03-02'' 5)"
    by (simp_all add: has_key_def ad_key_def row_without_id_def row_without_date_def
        daily_row_def dict_get_def py_or_def)
  show ?thesis
    using upsert_excludes_keyless[OF h] h k by simp
qed

subsection \<open>The run: validation, persistence, chunked fetch\<close>

lemma write_shards_error:
  "write_shards env st xs fw = (Inl e, st') \<Longrightarrow> \<exists>f. e = WriteFailed f"
  by (induction env st xs fw rule: write_shards.induct) (auto split: option.splits)

lemma write_outputs_validation:
  assumes "write_outputs env st mode d ref rows = (Inl (ValidationFailed errs), st')"
  shows "errs \<noteq> [] \<and> st' = st"
  using assms write_shards_error
  unfolding write_outputs_def Let_def
  by (fastforce split: option.splits prod.splits if_splits sum.splits)

lemma sync_validation:
  assumes "sync_account_data env st = (Inl (ValidationFailed errs), st')"
  shows "errs \<noteq> [] \<and> store st' = store st"
  using assms write_outputs_validation
  unfolding sync_account_data_def Let_def
  by (fastforce split: option.splits prod.splits if_splits sum.splits fetch_error.splits)

text \<open>
  C2, as the claim states it, fails: the code validates the shards (step 12) before it writes
  the raw dataset (step 13). In a run whose validation reports an error, the run ends with
  that error while the store is still empty: no raw dataset has been persisted.
\<close>

theorem validation_abort_precedes_raw_write:
  "fst (sync_account_data (example_env [''bad'']) state0) = Inl (ValidationFailed [''bad''])
   \<and> store (snd (sync_account_data (example_env [''bad'']) state0)) = []
   \<and> persisted_rows (snd (sync_account_data (example_env [''bad'']) state0))
        (baseline_key (example_env [''bad''])) = None"
  by code_simp

text \<open>
  C2, amended: when validation reports a nonempty error list, the run aborts with that list
  and has written nothing, neither a shard nor the raw dataset: the state is the one before
  the transform, and the store of a run that ends in a validation error is the store the run
  started with.
\<close>

theorem validation_failure_writes_nothing:
  "(env_transform env rows ref = Some (m, a, s) \<and> env_validate env m a s \<noteq> []
      \<longrightarrow> write_outputs env st1 mode days ref rows
            = (Inl (ValidationFailed (env_validate env m a s)), st1))
   \<and> (sync_account_data env st = (Inl (ValidationFailed errs), st')
      \<longrightarrow> errs \<noteq> [] \<and> store st' = store st)"
proof -
  have "write_outputs env st1 mode days ref rows
            = (Inl (ValidationFailed (env_validate env m a s)), st1)"
    if "env_transform env rows ref = Some (m, a, s)" and "env_validate env m a s \<noteq> []"
    using that by (simp add: write_outputs_def)
  moreover have "errs \<noteq> [] \<and> store st' = store st"
    if "sync_account_data env st = (Inl (ValidationFailed errs), st')"
    using that by (rule sync_validation)
  ultimately show ?thesis by blast
qed

theorem validation_failure_writes_nothing_witness:
  "env_transform (example_env [''bad''])
       [daily_row ''a1'' ''2024-03-31'' 10, daily_row ''a1'' ''2024-03-31'' 15] ''2024-04-01''
     = Some (2, 2, 2)
   \<and> env_validate (example_env [''bad'']) 2 2 2 = [''bad'']
   \<and> write_outputs (example_env [''bad'']) state0 BASELINE 90 ''2024-04-01''
       [daily_row ''a1'' ''2024-03-31'' 10, daily_row ''a1'' ''2024-03-31'' 15]
     = (Inl (ValidationFailed [''bad'']), state0)
   \<and> fst (sync_account_data (example_env [''bad'']) state0) = Inl (ValidationFailed [''bad''])
   \<and> store (snd (sync_account_data (example_env [''bad'']) state0)) = store state0"
proof -
  have t: "env_transform (example_env [''bad''])
       [daily_row ''a1'' ''2024-03-31'' 10, daily_row ''a1'' ''2024-03-31'' 15] ''2024-04-01''
     = Some (2, 2, 2)"
    and v: "env_validate (example_env [''bad'']) 2 2 2 = [''bad'']"
    by (simp_all add: example_env_def)
  have fs: "fst (sync_account_data (example_env [''bad'']) state0)
      = Inl (ValidationFailed [''bad''])"
    by code_simp
  then have r: "sync_account_data (example_env [''bad'']) state0
      = (Inl (ValidationFailed [''bad'']), snd (sync_account_data (example_env [''bad'']) state0))"
    by (metis prod.collapse)
  show ?thesis
    using validation_failure_writes_nothing[where env = "example_env [''bad'']"
        and rows = "[daily_row ''a1'' ''2024-03-31'' 10, daily_row ''a1'' ''2024-03-31'' 15]"
        and ref = "''2024-04-01''" and m = 2 and a = 2 and s = 2 and ?st1.0 = state0
        and mode = BASELINE and days = 90 and st = state0 and errs = "[''bad'']"
        and st' = "snd (sync_account_data (example_env [''bad'']) state0)"]
      t v r fs
    by simp
qed

lemma shard_key_neq: "optimized_path env @ ''/'' @ f \<noteq> baseline_key env"
  by (simp add: optimized_path_def baseline_key_def)

lemma persisted_put_other:
  "put_object env st key obj = Some st' \<Longrightarrow> key \<noteq> k \<Longrightarrow> persisted_rows st' k = persisted_rows st k"
  by (auto simp: put_object_def persisted_rows_def AList.update_conv' split: if_splits)

lemma persisted_put_baseline:
  "put_object env st k (BaselineObject bd) = Some st' \<Longrightarrow> persisted_rows st' k = Some (bd_daily_ads bd)"
  by (auto simp: put_object_def persisted_rows_def AList.update_conv' split: if_splits)

lemma persisted_write_shards:
  "write_shards env st xs fw = (r, st') \<Longrightarrow>
     persisted_rows st' (baseline_key env) = persisted_rows st (baseline_key env)"
proof (induction env st xs fw rule: write_shards.induct)
  case (1 env st files_written)
  then show ?case by simp
next
  case (2 env st filename data rest files_written)
  show ?case
  proof (cases "put_object env st (optimized_path env @ ''/'' @ filename) (ShardObject data)")
    case None
    with 2 show ?thesis by simp
  next
    case (Some st1)
    from persisted_put_other[OF Some shard_key_neq]
    have "persisted_rows st1 (baseline_key env) = persisted_rows st (baseline_key env)" .
    with 2 Some show ?thesis by simp
  qed
qed

lemma write_outputs_success:
  assumes "write_outputs env st mode d ref rows = (Inr result, st')"
  shows "res_refresh_mode result = mode \<and> res_days_fetched result = d
         \<and> persisted_rows st' (baseline_key env) = Some rows"
proof -
  from assms obtain m a s where t: "env_transform env rows ref = Some (m, a, s)"
    unfolding write_outputs_def by (auto split: option.splits)
  define bd where "bd = \<lparr>bd_timestamp = env_now env, bd_reference_date = ref, bd_mode = mode,
      bd_days_fetched = d, bd_total_daily_rows = length rows, bd_unique_ads = env_ads_count env a,
      bd_baseline_days = BASELINE_DAYS, bd_tail_backfill_days = TAIL_BACKFILL_DAYS,
      bd_daily_ads = rows\<rparr>"
  from assms t obtain st1 where p1: "put_object env st (baseline_key env) (BaselineObject bd) = Some st1"
    unfolding write_outputs_def Let_def bd_def by (auto split: option.splits if_splits)
  from assms t p1 obtain fw st2 where
    ws: "write_shards env st1 [(''meta_v1.json'', m), (''agg_v1.json'', a), (''summary_v1.json'', s)]
           [''baseline_daily.json''] = (Inr fw, st2)"
    unfolding write_outputs_def Let_def bd_def
    by (auto split: option.splits if_splits prod.splits sum.splits)
  from assms t p1 ws obtain st3 where
    p3: "put_object env st2 (optimized_path env @ ''/manifest.json'')
           (ManifestObject (env_now env) (env_ads_count env a) mode BASELINE_DAYS) = Some st3"
    and st': "st' = st3\<lparr>last_refresh_at := Some (env_now env)\<rparr>"
    and res: "res_refresh_mode result = mode" "res_days_fetched result = d"
    unfolding write_outputs_def Let_def bd_def
    by (auto split: option.splits if_splits)
  have "persisted_rows st1 (baseline_key env) = Some rows"
    using persisted_put_baseline[OF p1] by (simp add: bd_def)
  moreover have "persisted_rows st2 (baseline_key env) = persisted_rows st1 (baseline_key env)"
    by (rule persisted_write_shards[OF ws])
  moreover have "persisted_rows st3 (baseline_key env) = persisted_rows st2 (baseline_key env)"
    using persisted_put_other[OF p3, of "baseline_key env"] shard_key_neq[of env "''manifest.json''"]
    by simp
  moreover have "persisted_rows st' (baseline_key env) = persisted_rows st3 (baseline_key env)"
    by (simp add: st' persisted_rows_def)
  ultimately show ?thesis using res by simp
qed

lemma determine_mode_BASELINE_days:
  "determine_refresh_mode b ref = Inr (BASELINE, d) \<Longrightarrow> d = BASELINE_DAYS"
  by (auto simp: determine_refresh_mode_def Let_def split: option.splits pyval.splits if_splits)

text \<open>
  C3, as the claim states it, fails: in BASELINE mode the code persists the fetched rows as
  they are, without passing them through the merge. With two fetched rows under one key the
  persisted dataset holds both, whereas the merge with no existing rows keeps the last only.
\<close>

theorem baseline_keeps_duplicate_keys:
  "map_sum id res_refresh_mode (fst (sync_account_data (example_env []) state0)) = Inr BASELINE
   \<and> persisted_rows (snd (sync_account_data (example_env []) state0))
        (baseline_key (example_env []))
       = Some [daily_row ''a1'' ''2024-03-31'' 10, daily_row ''a1'' ''2024-03-31'' 15]
   \<and> upsert_daily_ads []
        [daily_row ''a1'' ''2024-03-31'' 10, daily_row ''a1'' ''2024-03-31'' 15] ''2024-04-01''
       = Inr [daily_row ''a1'' ''2024-03-31'' 15]"
  by code_simp

text \<open>
  C3, amended: in BASELINE mode, the dataset that a successful run persists is the list of
  fetched rows of the 90-day window, after enrichment and with the account fields set, in
  fetch order and unchanged by any merge (full replace, with no pruning and no folding of
  equal keys).
\<close>

theorem baseline_persists_fetched_rows:
  assumes "sync_account_data env st = (Inr result, st')" and "res_refresh_mode result = BASELINE"
  shows "\<exists>account_name daily_insights.
           env_account_name env = Some account_name
           \<and> fst (fetch_daily_insights (env_get_insights_daily env) (env_today env) BASELINE_DAYS)
               = Inr daily_insights
           \<and> persisted_rows st' (baseline_key env) = Some (enriched_rows env account_name daily_insights)"
proof -
  from assms(1) obtain name tok acc where n: "env_account_name env = Some name"
    and tk: "env_oauth_token env = Some tok" and dc: "env_decrypt env tok = Some acc"
    unfolding sync_account_data_def by (auto split: option.splits)
  define ref where "ref = isoformat (env_today env - 1)"
  from assms(1) n tk dc obtain mode days where
    dm: "determine_refresh_mode (env_existing_baseline env) ref = Inr (mode, days)"
    unfolding sync_account_data_def Let_def ref_def by (auto split: sum.splits)
  obtain fetched windows where
    f: "fetch_daily_insights (env_get_insights_daily env) (env_today env) days = (fetched, windows)"
    by (cases "fetch_daily_insights (env_get_insights_daily env) (env_today env) days")
  from assms(1) n tk dc dm f obtain daily where fd: "fetched = Inr daily"
    unfolding sync_account_data_def Let_def ref_def
    by (auto split: sum.splits fetch_error.splits)
  define st1 where "st1 = st\<lparr>fetched_windows := fetched_windows st @ windows\<rparr>"
  from assms(1) n tk dc dm f fd obtain all where
    mr: "merge_rows mode (env_existing_baseline env) (enriched_rows env name daily) ref = Inr all"
    and wo: "write_outputs env st1 mode days ref all = (Inr result, st')"
    unfolding sync_account_data_def Let_def ref_def st1_def
    by (auto split: sum.splits)
  from write_outputs_success[OF wo] assms(2)
  have mode: "mode = BASELINE" and pr: "persisted_rows st' (baseline_key env) = Some all"
    by simp_all
  from mr mode have "all = enriched_rows env name daily"
    by (auto simp: merge_rows_def split: option.splits)
  moreover from dm mode have "days = BASELINE_DAYS"
    by (auto dest: determine_mode_BASELINE_days)
  ultimately show ?thesis using n f fd pr by auto
qed

theorem baseline_persists_fetched_rows_witness:
  "env_account_name (example_env []) = Some ''Shop''
   \<and> fst (fetch_daily_insights (env_get_insights_daily (example_env []))
            (env_today (example_env [])) BASELINE_DAYS)
       = Inr [daily_row ''a1'' ''2024-03-31'' 10, daily_row ''a1'' ''2024-03-31'' 15]
   \<and> persisted_rows (snd (sync_account_data (example_env []) state0))
        (baseline_key (example_env []))
       = Some (enriched_rows (example_env []) ''Shop''
                 [daily_row ''a1'' ''2024-03-31'' 10, daily_row ''a1'' ''2024-03-31'' 15])"
proof -
  have m: "map_sum id res_refresh_mode (fst (sync_account_data (example_env []) state0))
      = Inr BASELINE"
    by code_simp
  then obtain result where r: "fst (sync_account_data (example_env []) state0) = Inr result"
    and b: "res_refresh_mode result = BASELINE"
    by (cases "fst (sync_account_data (example_env []) state0)") auto
  from r have s: "sync_account_data (example_env []) state0
      = (Inr result, snd (sync_account_data (example_env []) state0))"
    by (metis prod.collapse)
  have n: "env_account_name (example_env []) = Some ''Shop''"
    by (simp add: example_env_def)
  have f: "fst (fetch_daily_insights (env_get_insights_daily (example_env []))
            (env_today (example_env [])) BASELINE_DAYS)
       = Inr [daily_row ''a1'' ''2024-03-31'' 10, daily_row ''a1'' ''2024-03-31'' 15]"
    by code_simp
  from baseline_persists_fetched_rows[OF s b] n f show ?thesis by auto
qed

subsection \<open>The mode decision\<close>





subsection \<open>Chunked fetch\<close>

lemma fetch_chunks_windows:
  assumes "fetch_chunks get_insights cs e acc = (Inr rows, ws)" and "cs \<le> e + 1"
  shows "concat (map (\<lambda>(s, u). [s..u]) ws) = [cs..e]
         \<and> (\<forall>(s, u) \<in> set ws. s \<le> u \<and> u - s + 1 \<le> CHUNK_SIZE_DAYS)
         \<and> int (length ws) = (e - cs + CHUNK_SIZE_DAYS) div CHUNK_SIZE_DAYS
         \<and> rows = acc @ concat (map (window_rows get_insights) ws)"
  using assms
proof (induction get_insights cs e acc arbitrary: rows ws rule: fetch_chunks.induct)
  case (1 get_insights cs e acc)
  show ?case
  proof (cases "cs \<le> e")
    case False
    with "1.prems" have "ws = []" "rows = acc" "cs = e + 1"
      by (simp_all add: fetch_chunks.simps[of get_insights cs e acc])
    then show ?thesis by (simp add: CHUNK_SIZE_DAYS_def)
  next
    case True
    define ce where "ce = min (cs + (CHUNK_SIZE_DAYS - 1)) e"
    have ce: "cs \<le> ce" "ce \<le> e" "ce - cs + 1 \<le> CHUNK_SIZE_DAYS"
      using True by (simp_all add: ce_def CHUNK_SIZE_DAYS_def)
    from "1.prems"(1) True obtain chunk where
      g: "get_insights (isoformat cs) (isoformat ce) = Inr chunk"
      by (cases "get_insights (isoformat cs) (isoformat ce)")
         (simp_all add: fetch_chunks.simps[of get_insights cs e acc] ce_def Let_def)
    obtain res ws' where r: "fetch_chunks get_insights (ce + 1) e (acc @ chunk) = (res, ws')"
      by (cases "fetch_chunks get_insights (ce + 1) e (acc @ chunk)")
    from "1.prems"(1) True g r have res: "res = Inr rows" and ws: "ws = (cs, ce) # ws'"
      by (simp_all add: fetch_chunks.simps[of get_insights cs e acc] ce_def[symmetric] Let_def)
    have IH: "concat (map (\<lambda>(s, u). [s..u]) ws') = [ce + 1..e]
         \<and> (\<forall>(s, u) \<in> set ws'. s \<le> u \<and> u - s + 1 \<le> CHUNK_SIZE_DAYS)
         \<and> int (length ws') = (e - (ce + 1) + CHUNK_SIZE_DAYS) div CHUNK_SIZE_DAYS
         \<and> rows = (acc @ chunk) @ concat (map (window_rows get_insights) ws')"
      using "1.IH"[OF True ce_def g, of rows ws'] r res ce by simp
    have split: "[cs..e] = [cs..ce] @ [ce + 1..e]"
      using ce(1,2) by (rule upto_split2)
    have len: "(e - (ce + 1) + CHUNK_SIZE_DAYS) div CHUNK_SIZE_DAYS + 1
               = (e - cs + CHUNK_SIZE_DAYS) div CHUNK_SIZE_DAYS"
    proof (cases "cs + 29 \<le> e")
      case True
      then have "ce = cs + 29" by (simp add: ce_def CHUNK_SIZE_DAYS_def)
      then show ?thesis by (simp add: CHUNK_SIZE_DAYS_def)
    next
      case False
      with \<open>cs \<le> e\<close> have "ce = e" "0 \<le> e - cs" "e - cs < 29"
        by (simp_all add: ce_def CHUNK_SIZE_DAYS_def)
      then show ?thesis by (simp add: CHUNK_SIZE_DAYS_def)
    qed
    have wr: "window_rows get_insights (cs, ce) = chunk"
      by (simp add: window_rows_def g)
    show ?thesis
      using IH ce split len wr by (simp add: ws)
  qed
qed

text \<open>
  C9. When the window is longer than the chunk size of 30 days and every sub-fetch returns,
  the windows requested, in order, are contiguous and disjoint and cover the days from
  \<open>today - days\<close> to yesterday exactly (their day lists, concatenated, are the day list of the
  whole window); each has at least one and at most 30 days; there are \<open>\<lceil>days / 30\<rceil>\<close> of
  them, so 3 for 90 days; and the rows are the rows of the sub-fetches in that order.
\<close>

theorem chunked_fetch_windows:
  assumes "days_to_fetch > CHUNK_SIZE_DAYS"
    and "fetch_daily_insights get_insights today days_to_fetch = (Inr rows, windows)"
  shows "concat (map (\<lambda>(s, u). [s..u]) windows) = [today - days_to_fetch..today - 1]
         \<and> (\<forall>(s, u) \<in> set windows. s \<le> u \<and> u - s + 1 \<le> CHUNK_SIZE_DAYS)
         \<and> int (length windows) = (days_to_fetch + 29) div 30
         \<and> (days_to_fetch = 90 \<longrightarrow> length windows = 3)
         \<and> rows = concat (map (window_rows get_insights) windows)"
proof -
  from assms have f: "fetch_chunks get_insights (today - days_to_fetch) (today - 1) []
      = (Inr rows, windows)"
    by (simp add: fetch_daily_insights_def)
  from assms(1) have le: "today - days_to_fetch \<le> today - 1 + 1"
    by (simp add: CHUNK_SIZE_DAYS_def)
  from fetch_chunks_windows[OF f le]
  have 1: "concat (map (\<lambda>(s, u). [s..u]) windows) = [today - days_to_fetch..today - 1]"
    and 2: "\<forall>(s, u) \<in> set windows. s \<le> u \<and> u - s + 1 \<le> CHUNK_SIZE_DAYS"
    and 3: "int (length windows)
        = (today - 1 - (today - days_to_fetch) + CHUNK_SIZE_DAYS) div CHUNK_SIZE_DAYS"
    and 4: "rows = concat (map (window_rows get_insights) windows)"
    by simp_all
  have "today - 1 - (today - days_to_fetch) + CHUNK_SIZE_DAYS = days_to_fetch + 29"
    by (simp add: CHUNK_SIZE_DAYS_def)
  with 3 have 5: "int (length windows) = (days_to_fetch + 29) div 30"
    by (simp add: CHUNK_SIZE_DAYS_def)
  then have "days_to_fetch = 90 \<longrightarrow> length windows = 3" by auto
  with 1 2 4 5 show ?thesis by blast
qed

theorem chunked_fetch_windows_witness:
  "fetch_daily_insights (env_get_insights_daily (example_env [])) 738978 90
     = (Inr [daily_row ''a1'' ''2024-03-31'' 10, daily_row ''a1'' ''2024-03-31'' 15],
        [(738888, 738917), (738918, 738947), (738948, 738977)])
   \<and> concat (map (\<lambda>(s, u). [s..u]) [(738888, 738917), (738918, 738947), (738948, 738977)])
       = [738978 - 90..738978 - 1]
   \<and> map (\<lambda>(s, u). (isoformat s, isoformat u))
         [(738888, 738917), (738918, 738947), (738948, 738977)]
       = [(''2024-01-03'', ''2024-02-01''), (''2024-02-02'', ''2024-03-02''),
          (''2024-03-03'', ''2024-04-01'')]"
proof -
  have c: "(90::int) > CHUNK_SIZE_DAYS" by (simp add: CHUNK_SIZE_DAYS_def)
  have f: "fetch_daily_insights (env_get_insights_daily (example_env [])) 738978 90
     = (Inr [daily_row ''a1'' ''2024-03-31'' 10, daily_row ''a1'' ''2024-03-31'' 15],
        [(738888, 738917), (738918, 738947), (738948, 738977)])"
    by code_simp
  have i: "map (\<lambda>(s, u). (isoformat s, isoformat u))
         [(738888, 738917), (738918, 738947), (738948, 738977)]
       = [(''2024-01-03'', ''2024-02-01''), (''2024-02-02'', ''2024-03-02''),
          (''2024-03-03'', ''2024-04-01'')]"
    by code_simp
  from chunked_fetch_windows[OF c f] f i show ?thesis by simp
qed

subsection \<open>The calendar: ordinals, dates and their ISO texts\<close>































lemma length_digits [simp]: "length (digits k n) = k"
  by (induction k arbitrary: n) simp_all






lemma length_pad [simp]: "length (pad2 n) = 2" "length (pad4 n) = 4"
  by (simp_all add: pad2_def pad4_def)









subsection \<open>Retention\<close>









end
